theory Spec2Isabelle
  imports Main "HOL-Library.Sublist"
begin

section \<open>Python values\<close>

text \<open>
  The pipeline works on trees of dictionaries read from and written to JSON files.
  A Python \<open>str\<close> is a sequence of Unicode code points, so it is a list of naturals here;
  \<open>ustr\<close> turns a literal into such a list. A \<open>dict\<close> keeps its insertion order, so it is
  an association list: \<open>d[k] = v\<close> overwrites the value in place when the key is there and
  appends the pair otherwise. Equality of two association lists is finer than Python's
  \<open>==\<close> on dicts (which ignores the order of the keys), so equal values of the model are
  equal values of the program. Numbers are Python's unbounded integers; no field that
  the functions below inspect is a float.
\<close>

type_synonym pystr = "nat list"

definition ustr :: "string \<Rightarrow> pystr" where
  "ustr s = map of_char s"

datatype json =
    JNull
  | JBool bool
  | JInt int
  | JStr pystr
  | JList "json list"
  | JDict "(pystr \<times> json) list"

type_synonym pydict = "(pystr \<times> json) list"

datatype error = TypeError | AttributeError | KeyError

definition k_title :: pystr where "k_title = ustr ''title''"
definition k_children :: pystr where "k_children = ustr ''children''"
definition k_page :: pystr where "k_page = ustr ''page''"
definition k_sections :: pystr where "k_sections = ustr ''sections''"
definition k_section_text :: pystr where "k_section_text = ustr ''section_text''"
definition k_description :: pystr where "k_description = ustr ''description''"
definition k_question :: pystr where "k_question = ustr ''question''"
definition k_keywords :: pystr where "k_keywords = ustr ''keywords''"
definition k_node_id :: pystr where "k_node_id = ustr ''node_id''"
definition k_heading_level :: pystr where "k_heading_level = ustr ''heading_level''"

text \<open>\<open>bool(x)\<close>: the truth value Python gives a value in a condition.\<close>

fun truthy :: "json \<Rightarrow> bool" where
  "truthy JNull = False"
| "truthy (JBool b) = b"
| "truthy (JInt i) = (i \<noteq> 0)"
| "truthy (JStr s) = (s \<noteq> [])"
| "truthy (JList xs) = (xs \<noteq> [])"
| "truthy (JDict kvs) = (kvs \<noteq> [])"

text \<open>
  \<open>for x in v\<close>: a list yields its elements, a string its characters (each a string of
  length one), a dict its keys; \<open>None\<close>, a bool or an int is not iterable.
\<close>

fun py_iter :: "json \<Rightarrow> error + json list" where
  "py_iter (JList xs) = Inr xs"
| "py_iter (JStr s) = Inr (map (\<lambda>c. JStr [c]) s)"
| "py_iter (JDict kvs) = Inr (map (\<lambda>kv. JStr (fst kv)) kvs)"
| "py_iter JNull = Inl TypeError"
| "py_iter (JBool b) = Inl TypeError"
| "py_iter (JInt i) = Inl TypeError"

text \<open>\<open>d.get(k, default)\<close>, \<open>d[k] = v\<close> and \<open>d.pop(k, None)\<close> (\<open>d.get(k)\<close> is \<open>map_of d k\<close>).\<close>

definition dict_get_default :: "pydict \<Rightarrow> pystr \<Rightarrow> json \<Rightarrow> json" where
  "dict_get_default d k dflt = (case map_of d k of None \<Rightarrow> dflt | Some v \<Rightarrow> v)"

primrec dict_set :: "pydict \<Rightarrow> pystr \<Rightarrow> json \<Rightarrow> pydict" where
  "dict_set [] k v = [(k, v)]"
| "dict_set (p # ps) k v = (if fst p = k then (k, v) # ps else p # dict_set ps k v)"

definition dict_pop :: "pydict \<Rightarrow> pystr \<Rightarrow> pydict" where
  "dict_pop d k = filter (\<lambda>kv. fst kv \<noteq> k) d"

text \<open>
  \<open>str.strip()\<close> removes the characters for which CPython's \<open>Py_UNICODE_ISSPACE\<close> holds
  from both ends.
\<close>

definition isspace :: "nat \<Rightarrow> bool" where
  "isspace c = (c \<in> set [9, 10, 11, 12, 13, 28, 29, 30, 31, 32, 133, 160, 5760,
     8192, 8193, 8194, 8195, 8196, 8197, 8198, 8199, 8200, 8201, 8202,
     8232, 8233, 8239, 8287, 12288])"

definition strip :: "pystr \<Rightarrow> pystr" where
  "strip s = rev (dropWhile isspace (rev (dropWhile isspace s)))"

lemma map_of_dict_set: "map_of (dict_set d k v) k' = (if k' = k then Some v else map_of d k')"
  by (induction d) auto

lemma dict_set_twice: "dict_set (dict_set d k v) k w = dict_set d k w"
  by (induction d) auto

lemma dict_set_same: "map_of d k = Some v \<Longrightarrow> dict_set d k v = d"
  by (induction d) (auto split: if_splits)

lemma map_of_dict_pop: "map_of (dict_pop d k) k' = (if k' = k then None else map_of d k')"
  unfolding dict_pop_def by (induction d) auto

lemma keys_distinct:
  "k_title \<noteq> k_children" "k_children \<noteq> k_title"
  "k_page \<noteq> k_children" "k_children \<noteq> k_page"
  "k_sections \<noteq> k_children" "k_children \<noteq> k_sections"
  "k_title \<noteq> k_sections" "k_sections \<noteq> k_title"
  "k_title \<noteq> k_page" "k_page \<noteq> k_title"
  "k_page \<noteq> k_sections" "k_sections \<noteq> k_page"
  by (simp_all add: k_title_def k_children_def k_page_def k_sections_def ustr_def)

section \<open>ChunkSplitter: \<open>split_tree_into_chunks\<close> (llm/fallback\_llm.py)\<close>

text \<open>
  \<open>count_tokens_in_json\<close> serialises a value and counts the tokens the tokenizer of an
  external library finds in it; the splitter only adds and compares these counts, so the
  counter is a parameter \<open>count\<close> of the model and every theorem holds for any counter.

  A fresh chunk carries the tree's title and an empty list of children, then the tree's
  \<open>page\<close> and \<open>sections\<close> when the tree has them.
\<close>

fun copy_keys :: "pydict \<Rightarrow> pystr list \<Rightarrow> pydict \<Rightarrow> pydict" where
  "copy_keys tree [] chunk = chunk"
| "copy_keys tree (key # keys) chunk =
     copy_keys tree keys
       (case map_of tree key of None \<Rightarrow> chunk | Some v \<Rightarrow> dict_set chunk key v)"

definition new_chunk :: "pydict \<Rightarrow> pydict" where
  "new_chunk tree =
     copy_keys tree [k_page, k_sections]
       [(k_title, dict_get_default tree k_title (JStr [])), (k_children, JList [])]"

text \<open>The cost of a chunk without its children: \<open>{k: v for k, v in chunk.items() if k != "children"}\<close>.\<close>

definition base_tokens :: "(json \<Rightarrow> nat) \<Rightarrow> pydict \<Rightarrow> nat" where
  "base_tokens count chunk = count (JDict (filter (\<lambda>kv. fst kv \<noteq> k_children) chunk))"

definition chunk_children :: "pydict \<Rightarrow> json list" where
  "chunk_children chunk = (case map_of chunk k_children of Some (JList xs) \<Rightarrow> xs | _ \<Rightarrow> [])"

definition append_child :: "pydict \<Rightarrow> json \<Rightarrow> pydict" where
  "append_child chunk child = dict_set chunk k_children (JList (chunk_children chunk @ [child]))"

text \<open>
  One pass of the \<open>for child in ...\<close> loop over the state
  \<open>(chunks, current_chunk, current_tokens)\<close>.
\<close>

definition chunk_step ::
  "(json \<Rightarrow> nat) \<Rightarrow> pydict \<Rightarrow> int \<Rightarrow> json list \<times> pydict \<times> nat \<Rightarrow> json \<Rightarrow> json list \<times> pydict \<times> nat" where
  "chunk_step count tree chunk_size st child =
     (case st of (chunks, current_chunk, current_tokens) \<Rightarrow>
        let child_tokens = count child in
        if int (current_tokens + child_tokens) > chunk_size \<and> chunk_children current_chunk \<noteq> []
        then (chunks @ [JDict current_chunk],
              append_child (new_chunk tree) child,
              base_tokens count (new_chunk tree) + child_tokens)
        else (chunks, append_child current_chunk child, current_tokens + child_tokens))"

text \<open>After the loop the open chunk is pushed when it has a child.\<close>

definition close_last :: "json list \<times> pydict \<times> nat \<Rightarrow> json list" where
  "close_last st =
     (case st of (chunks, current_chunk, current_tokens) \<Rightarrow>
        if chunk_children current_chunk \<noteq> [] then chunks @ [JDict current_chunk] else chunks)"

definition chunk_loop :: "(json \<Rightarrow> nat) \<Rightarrow> pydict \<Rightarrow> int \<Rightarrow> json list \<Rightarrow> json list" where
  "chunk_loop count tree chunk_size children =
     close_last (foldl (chunk_step count tree chunk_size)
                   ([], new_chunk tree, base_tokens count (new_chunk tree)) children)"

text \<open>
  \<open>tree.get\<close> exists on a dict only; \<open>tree.get("children", [])\<close> is then iterated,
  whatever it is.
\<close>

definition split_tree_into_chunks :: "(json \<Rightarrow> nat) \<Rightarrow> json \<Rightarrow> int \<Rightarrow> error + json list" where
  "split_tree_into_chunks count tree chunk_size =
     (case tree of
        JDict d \<Rightarrow>
          (case py_iter (dict_get_default d k_children (JList [])) of
             Inl e \<Rightarrow> Inl e
           | Inr children \<Rightarrow> Inr (chunk_loop count d chunk_size children))
      | _ \<Rightarrow> Inl AttributeError)"

text \<open>The \<open>children\<close> list of a returned chunk.\<close>

definition children_of_chunk :: "json \<Rightarrow> json list" where
  "children_of_chunk c = (case c of JDict d \<Rightarrow> chunk_children d | _ \<Rightarrow> [])"

text \<open>A stand-in counter for concrete runs: one token per character of the title.\<close>

definition title_tokens :: "json \<Rightarrow> nat" where
  "title_tokens j =
     (case j of
        JDict d \<Rightarrow> (case map_of d k_title of Some (JStr s) \<Rightarrow> length s | _ \<Rightarrow> 0)
      | _ \<Rightarrow> 0)"

definition leaf :: "string \<Rightarrow> json" where
  "leaf t = JDict [(k_title, JStr (ustr t)), (k_children, JList [])]"

definition demo_tree :: pydict where
  "demo_tree = [(k_title, JStr (ustr ''ROOT'')),
                (k_children, JList [leaf ''ab'', leaf ''cde'', leaf ''f''])]"

definition demo_chunk :: "json list \<Rightarrow> json" where
  "demo_chunk cs = JDict [(k_title, JStr (ustr ''ROOT'')), (k_children, JList cs)]"

text \<open>
  The running total \<open>current_tokens\<close> the loop holds for a chunk: the cost of the seed plus
  the costs of the children added to it.
\<close>

definition chunk_total :: "(json \<Rightarrow> nat) \<Rightarrow> pydict \<Rightarrow> json \<Rightarrow> nat" where
  "chunk_total count tree c =
     base_tokens count (new_chunk tree) + sum_list (map count (children_of_chunk c))"

text \<open>What the loop guarantees of every chunk it returns.\<close>

definition soft_bound :: "(json \<Rightarrow> nat) \<Rightarrow> pydict \<Rightarrow> int \<Rightarrow> json \<Rightarrow> bool" where
  "soft_bound count tree chunk_size c =
     (children_of_chunk c \<noteq> []
      \<and> (2 \<le> length (children_of_chunk c) \<longrightarrow> int (chunk_total count tree c) \<le> chunk_size)
      \<and> (int (base_tokens count (new_chunk tree)) \<le> chunk_size \<longrightarrow>
           int (chunk_total count tree c) \<le> chunk_size + int (count (last (children_of_chunk c)))))"

text \<open>The invariant of the loop state.\<close>

definition chunk_inv :: "(json \<Rightarrow> nat) \<Rightarrow> pydict \<Rightarrow> int \<Rightarrow> json list \<times> pydict \<times> nat \<Rightarrow> bool" where
  "chunk_inv count tree chunk_size st =
     (case st of (chunks, cur, toks) \<Rightarrow>
        toks = chunk_total count tree (JDict cur)
        \<and> (chunk_children cur \<noteq> [] \<longrightarrow> soft_bound count tree chunk_size (JDict cur))
        \<and> (\<forall>c\<in>set chunks. soft_bound count tree chunk_size c))"

subsection \<open>The loop's invariants\<close>

lemma chunk_children_new_chunk: "chunk_children (new_chunk tree) = []"
  by (simp add: chunk_children_def new_chunk_def map_of_dict_set keys_distinct
      split: option.splits)

lemma chunk_children_append_child:
  "chunk_children (append_child chunk child) = chunk_children chunk @ [child]"
  by (simp add: chunk_children_def append_child_def map_of_dict_set)

lemma children_of_chunk_JDict: "children_of_chunk (JDict d) = chunk_children d"
  by (simp add: children_of_chunk_def)

lemma chunk_step_close:
  "int (toks + count child) > chunk_size \<and> chunk_children cur \<noteq> [] \<Longrightarrow>
   chunk_step count tree chunk_size (chunks, cur, toks) child =
     (chunks @ [JDict cur], append_child (new_chunk tree) child,
      base_tokens count (new_chunk tree) + count child)"
  by (simp add: chunk_step_def Let_def)

lemma chunk_step_keep:
  "\<not> (int (toks + count child) > chunk_size \<and> chunk_children cur \<noteq> []) \<Longrightarrow>
   chunk_step count tree chunk_size (chunks, cur, toks) child =
     (chunks, append_child cur child, toks + count child)"
  by (auto simp add: chunk_step_def Let_def)

lemma chunk_fold_concat:
  "foldl (chunk_step count tree chunk_size) (chunks, cur, toks) children = (chunks', cur', toks')
   \<Longrightarrow> concat (map children_of_chunk chunks') @ chunk_children cur'
       = concat (map children_of_chunk chunks) @ chunk_children cur @ children"
proof (induction children arbitrary: chunks cur toks)
  case Nil
  then show ?case by simp
next
  case (Cons child children)
  show ?case
  proof (cases "int (toks + count child) > chunk_size \<and> chunk_children cur \<noteq> []")
    case True
    with Cons.prems have
      "foldl (chunk_step count tree chunk_size)
         (chunks @ [JDict cur], append_child (new_chunk tree) child,
          base_tokens count (new_chunk tree) + count child) children = (chunks', cur', toks')"
      by (simp add: chunk_step_close)
    from Cons.IH [OF this] show ?thesis
      by (simp add: chunk_children_append_child chunk_children_new_chunk children_of_chunk_JDict)
  next
    case False
    with Cons.prems have
      "foldl (chunk_step count tree chunk_size)
         (chunks, append_child cur child, toks + count child) children = (chunks', cur', toks')"
      by (simp add: chunk_step_keep)
    from Cons.IH [OF this] show ?thesis
      by (simp add: chunk_children_append_child)
  qed
qed

lemma chunk_loop_concat:
  "concat (map children_of_chunk (chunk_loop count tree chunk_size children)) = children"
proof -
  obtain chunks cur toks where f:
    "foldl (chunk_step count tree chunk_size)
       ([], new_chunk tree, base_tokens count (new_chunk tree)) children = (chunks, cur, toks)"
    by (metis prod_cases3)
  from chunk_fold_concat [OF f] have
    "concat (map children_of_chunk chunks) @ chunk_children cur = children"
    by (simp add: chunk_children_new_chunk)
  then show ?thesis
    by (auto simp add: chunk_loop_def close_last_def f children_of_chunk_JDict)
qed

lemma chunk_inv_init:
  "chunk_inv count tree chunk_size ([], new_chunk tree, base_tokens count (new_chunk tree))"
  by (simp add: chunk_inv_def chunk_total_def children_of_chunk_JDict chunk_children_new_chunk)

lemma chunk_inv_step:
  assumes "chunk_inv count tree chunk_size st"
  shows "chunk_inv count tree chunk_size (chunk_step count tree chunk_size st child)"
proof -
  obtain chunks cur toks where st: "st = (chunks, cur, toks)" by (metis prod_cases3)
  show ?thesis
  proof (cases "int (toks + count child) > chunk_size \<and> chunk_children cur \<noteq> []")
    case True
    then show ?thesis using assms unfolding st
      by (simp add: chunk_step_close chunk_inv_def chunk_total_def soft_bound_def
          children_of_chunk_JDict chunk_children_append_child chunk_children_new_chunk)
  next
    case False
    then show ?thesis using assms unfolding st
      by (auto simp add: chunk_step_keep chunk_inv_def chunk_total_def soft_bound_def
          children_of_chunk_JDict chunk_children_append_child)
  qed
qed

lemma chunk_inv_foldl:
  "chunk_inv count tree chunk_size st \<Longrightarrow>
   chunk_inv count tree chunk_size (foldl (chunk_step count tree chunk_size) st children)"
  by (induction children arbitrary: st) (simp_all add: chunk_inv_step)

lemma chunk_loop_soft_bound:
  "c \<in> set (chunk_loop count tree chunk_size children) \<Longrightarrow> soft_bound count tree chunk_size c"
proof -
  assume c: "c \<in> set (chunk_loop count tree chunk_size children)"
  obtain chunks cur toks where f:
    "foldl (chunk_step count tree chunk_size)
       ([], new_chunk tree, base_tokens count (new_chunk tree)) children = (chunks, cur, toks)"
    by (metis prod_cases3)
  have "chunk_inv count tree chunk_size (chunks, cur, toks)"
    using chunk_inv_foldl [OF chunk_inv_init, of count tree chunk_size children] f by simp
  with c show ?thesis
    by (auto simp add: chunk_loop_def close_last_def f chunk_inv_def split: if_splits)
qed

lemma chunk_fold_prefix:
  "foldl (chunk_step count tree chunk_size) (P @ chunks, cur, toks) children =
     (case foldl (chunk_step count tree chunk_size) (chunks, cur, toks) children of
        (chunks', cur', toks') \<Rightarrow> (P @ chunks', cur', toks'))"
proof (induction children arbitrary: chunks cur toks)
  case Nil
  then show ?case by simp
next
  case (Cons child children)
  show ?case
  proof (cases "int (toks + count child) > chunk_size \<and> chunk_children cur \<noteq> []")
    case True
    then show ?thesis using Cons.IH [of "chunks @ [JDict cur]"]
      by (simp add: chunk_step_close)
  next
    case False
    then show ?thesis using Cons.IH [of chunks]
      by (simp add: chunk_step_keep)
  qed
qed

lemma close_last_prefix:
  "close_last (foldl (chunk_step count tree chunk_size) (P @ chunks, cur, toks) children) =
   P @ close_last (foldl (chunk_step count tree chunk_size) (chunks, cur, toks) children)"
  by (simp add: chunk_fold_prefix close_last_def split: prod.splits)

lemma chunk_fold_nonempty:
  "foldl (chunk_step count tree chunk_size) (chunks, cur, toks) children = (chunks', cur', toks')
   \<Longrightarrow> children \<noteq> [] \<or> chunk_children cur \<noteq> [] \<Longrightarrow> chunk_children cur' \<noteq> []"
proof (induction children arbitrary: chunks cur toks)
  case Nil
  then show ?case by simp
next
  case (Cons child children)
  show ?case
  proof (cases "int (toks + count child) > chunk_size \<and> chunk_children cur \<noteq> []")
    case True
    with Cons.prems(1) have
      "foldl (chunk_step count tree chunk_size)
         (chunks @ [JDict cur], append_child (new_chunk tree) child,
          base_tokens count (new_chunk tree) + count child) children = (chunks', cur', toks')"
      by (simp add: chunk_step_close)
    from Cons.IH [OF this] show ?thesis by (simp add: chunk_children_append_child)
  next
    case False
    with Cons.prems(1) have
      "foldl (chunk_step count tree chunk_size)
         (chunks, append_child cur child, toks + count child) children = (chunks', cur', toks')"
      by (simp add: chunk_step_keep)
    from Cons.IH [OF this] show ?thesis by (simp add: chunk_children_append_child)
  qed
qed

text \<open>Once the open chunk is over the budget, the rest is chunked afresh.\<close>

lemma chunk_after_full:
  assumes "int toks > chunk_size" "chunk_children cur \<noteq> []"
  shows "close_last (foldl (chunk_step count tree chunk_size) (chunks, cur, toks) post)
         = chunks @ [JDict cur] @ chunk_loop count tree chunk_size post"
proof (cases post)
  case Nil
  then show ?thesis using assms by (simp add: close_last_def chunk_loop_def chunk_children_new_chunk)
next
  case (Cons d ds)
  have 1: "chunk_step count tree chunk_size (chunks, cur, toks) d =
     (chunks @ [JDict cur], append_child (new_chunk tree) d, base_tokens count (new_chunk tree) + count d)"
    using assms by (simp add: chunk_step_close)
  have 2: "chunk_step count tree chunk_size ([], new_chunk tree, base_tokens count (new_chunk tree)) d =
     ([], append_child (new_chunk tree) d, base_tokens count (new_chunk tree) + count d)"
    by (simp add: chunk_step_keep chunk_children_new_chunk)
  show ?thesis
    unfolding Cons chunk_loop_def
    using close_last_prefix [of count tree chunk_size "chunks @ [JDict cur]" "[]"]
    by (simp add: 1 2)
qed

lemma chunk_loop_oversized:
  assumes "int (count child) > chunk_size"
  shows "chunk_loop count tree chunk_size (pre @ child # post) =
         chunk_loop count tree chunk_size pre @ [JDict (append_child (new_chunk tree) child)]
           @ chunk_loop count tree chunk_size post"
proof -
  let ?b = "base_tokens count (new_chunk tree)"
  obtain chunks cur toks where f:
    "foldl (chunk_step count tree chunk_size) ([], new_chunk tree, ?b) pre = (chunks, cur, toks)"
    by (metis prod_cases3)
  have big: "int (?b + count child) > chunk_size" using assms by simp
  have ne: "chunk_children (append_child (new_chunk tree) child) \<noteq> []"
    by (simp add: chunk_children_append_child)
  show ?thesis
  proof (cases "chunk_children cur = []")
    case True
    with chunk_fold_nonempty [OF f] have "pre = []" by (auto simp: chunk_children_new_chunk)
    then show ?thesis
      using chunk_after_full [OF big ne, of count tree "[]" post]
      by (simp add: chunk_loop_def chunk_step_keep chunk_children_new_chunk) (simp add: close_last_def chunk_children_new_chunk)
  next
    case False
    have s: "chunk_step count tree chunk_size (chunks, cur, toks) child =
       (chunks @ [JDict cur], append_child (new_chunk tree) child, ?b + count child)"
      using False assms by (simp add: chunk_step_close)
    have p: "chunk_loop count tree chunk_size pre = chunks @ [JDict cur]"
      using False by (simp add: chunk_loop_def close_last_def f)
    show ?thesis
      using chunk_after_full [OF big ne, of count tree "chunks @ [JDict cur]" post]
      by (simp add: chunk_loop_def [of _ _ _ "pre @ child # post"] f s p)
  qed
qed


subsection \<open>Reconstruction (C1)\<close>

text \<open>
  C1. Whatever the counter and the budget (positive or not), the children lists of the
  chunks that \<open>split_tree_into_chunks\<close> returns, concatenated in order, are the sequence
  of children the loop iterated over: the tree's \<open>children\<close>, or the empty list when the
  tree has none. The call returns whenever that field can be iterated.
\<close>

theorem split_tree_into_chunks_reconstructs:
  assumes "py_iter (dict_get_default tree k_children (JList [])) = Inr children"
  shows "\<exists>chunks. split_tree_into_chunks count (JDict tree) chunk_size = Inr chunks
           \<and> concat (map children_of_chunk chunks) = children"
  using assms by (simp add: split_tree_into_chunks_def chunk_loop_concat)

theorem split_tree_into_chunks_reconstructs_witness:
  "py_iter (dict_get_default demo_tree k_children (JList []))
     = Inr [leaf ''ab'', leaf ''cde'', leaf ''f'']
   \<and> (\<exists>chunks. split_tree_into_chunks title_tokens (JDict demo_tree) 6 = Inr chunks
         \<and> concat (map children_of_chunk chunks) = [leaf ''ab'', leaf ''cde'', leaf ''f''])"
proof -
  have h: "py_iter (dict_get_default demo_tree k_children (JList []))
             = Inr [leaf ''ab'', leaf ''cde'', leaf ''f'']"
    by (simp add: demo_tree_def dict_get_default_def keys_distinct)
  from split_tree_into_chunks_reconstructs [OF h, of title_tokens 6] h show ?thesis
    by simp
qed

subsection \<open>The soft bound (C5)\<close>

text \<open>
  C5. A chunk is closed exactly when adding the next child would push the running total
  over the budget and the open chunk already holds a child. Hence every returned chunk
  has a child; a chunk of two or more children has a running total within the budget; and,
  when the cost of the chunk's seed (the root's title, \<open>page\<close> and \<open>sections\<close>) is
  within the budget, every chunk exceeds the budget by at most the cost of its last
  child. A child whose own cost is over the budget sits alone in its chunk, between the
  chunks of the children before it and the chunks of the children after it.
\<close>

theorem chunk_budget_soft_bound:
  assumes "py_iter (dict_get_default tree k_children (JList [])) = Inr children"
  shows "\<exists>chunks. split_tree_into_chunks count (JDict tree) chunk_size = Inr chunks
     \<and> (\<forall>c\<in>set chunks.
           children_of_chunk c \<noteq> []
         \<and> (2 \<le> length (children_of_chunk c) \<longrightarrow> int (chunk_total count tree c) \<le> chunk_size)
         \<and> (int (base_tokens count (new_chunk tree)) \<le> chunk_size \<longrightarrow>
              int (chunk_total count tree c)
                \<le> chunk_size + int (count (last (children_of_chunk c)))))
     \<and> (\<forall>pre child post.
           children = pre @ child # post \<and> chunk_size < int (count child) \<longrightarrow>
           map children_of_chunk chunks =
             map children_of_chunk (chunk_loop count tree chunk_size pre) @ [[child]]
               @ map children_of_chunk (chunk_loop count tree chunk_size post))
     \<and> (\<forall>closed cur toks child.
           fst (chunk_step count tree chunk_size (closed, cur, toks) child) =
             (if chunk_size < int (toks + count child) \<and> chunk_children cur \<noteq> []
              then closed @ [JDict cur] else closed))"
proof -
  have s: "split_tree_into_chunks count (JDict tree) chunk_size
             = Inr (chunk_loop count tree chunk_size children)"
    using assms by (simp add: split_tree_into_chunks_def)
  have a: "\<forall>c\<in>set (chunk_loop count tree chunk_size children).
           children_of_chunk c \<noteq> []
         \<and> (2 \<le> length (children_of_chunk c) \<longrightarrow> int (chunk_total count tree c) \<le> chunk_size)
         \<and> (int (base_tokens count (new_chunk tree)) \<le> chunk_size \<longrightarrow>
              int (chunk_total count tree c)
                \<le> chunk_size + int (count (last (children_of_chunk c))))"
    using chunk_loop_soft_bound [of _ count tree chunk_size children]
    unfolding soft_bound_def by blast
  have b: "\<forall>pre child post.
           children = pre @ child # post \<and> chunk_size < int (count child) \<longrightarrow>
           map children_of_chunk (chunk_loop count tree chunk_size children) =
             map children_of_chunk (chunk_loop count tree chunk_size pre) @ [[child]]
               @ map children_of_chunk (chunk_loop count tree chunk_size post)"
    by (auto simp add: chunk_loop_oversized children_of_chunk_JDict
        chunk_children_append_child chunk_children_new_chunk)
  have c: "\<forall>closed cur toks child.
           fst (chunk_step count tree chunk_size (closed, cur, toks) child) =
             (if chunk_size < int (toks + count child) \<and> chunk_children cur \<noteq> []
              then closed @ [JDict cur] else closed)"
    by (simp add: chunk_step_def Let_def)
  from s a b c show ?thesis by blast
qed

lemma demo_iter:
  "py_iter (dict_get_default demo_tree k_children (JList []))
     = Inr [leaf ''ab'', leaf ''cde'', leaf ''f'']"
  by (simp add: demo_tree_def dict_get_default_def keys_distinct)

lemma demo_split_8:
  "split_tree_into_chunks title_tokens (JDict demo_tree) 8
     = Inr [demo_chunk [leaf ''ab''], demo_chunk [leaf ''cde'', leaf ''f'']]"
  by code_simp

lemma demo_split_3:
  "split_tree_into_chunks title_tokens (JDict demo_tree) 3
     = Inr [demo_chunk [leaf ''ab''], demo_chunk [leaf ''cde''], demo_chunk [leaf ''f'']]"
  by code_simp

theorem chunk_budget_soft_bound_witness:
  "py_iter (dict_get_default demo_tree k_children (JList []))
     = Inr [leaf ''ab'', leaf ''cde'', leaf ''f'']
   \<and> split_tree_into_chunks title_tokens (JDict demo_tree) 8
     = Inr [demo_chunk [leaf ''ab''], demo_chunk [leaf ''cde'', leaf ''f'']]
   \<and> int (chunk_total title_tokens demo_tree (demo_chunk [leaf ''cde'', leaf ''f''])) \<le> 8
   \<and> int (chunk_total title_tokens demo_tree (demo_chunk [leaf ''ab'']))
       \<le> 8 + int (title_tokens (leaf ''ab''))"
proof -
  have b: "int (base_tokens title_tokens (new_chunk demo_tree)) \<le> 8" by code_simp
  have l: "2 \<le> length (children_of_chunk (demo_chunk [leaf ''cde'', leaf ''f'']))"
    by code_simp
  have k: "last (children_of_chunk (demo_chunk [leaf ''ab''])) = leaf ''ab''"
    by code_simp
  from chunk_budget_soft_bound [OF demo_iter, of title_tokens 8] demo_split_8 b l k
  show ?thesis using demo_iter by auto
qed

text \<open>
  Without the condition on the seed the bound fails: with a budget of 3 and a seed that
  costs 4, the last chunk holds one child of cost 1, which is not over the budget, and
  its running total 5 exceeds the budget by 2.
\<close>

theorem chunk_budget_soft_bound_counterexample:
  "split_tree_into_chunks title_tokens (JDict demo_tree) 3
     = Inr [demo_chunk [leaf ''ab''], demo_chunk [leaf ''cde''], demo_chunk [leaf ''f'']]
   \<and> children_of_chunk (demo_chunk [leaf ''f'']) = [leaf ''f'']
   \<and> int (title_tokens (leaf ''f'')) \<le> 3
   \<and> \<not> int (chunk_total title_tokens demo_tree (demo_chunk [leaf ''f'']))
         \<le> 3 + int (title_tokens (last (children_of_chunk (demo_chunk [leaf ''f'']))))"
  by code_simp


end
